theory Spec2Isabelle
  imports Main "HOL-Library.Sublist"
begin

section \<open>The record filter of whitedwarf.py\<close>

text \<open>
  The model covers \<open>process_text_file\<close> of \<open>src/whitedwarf.py\<close>, lines 365 to 409: the
  local variables of the function, the body of its \<open>while\<close> loop and the loop itself.
  A line is a Python \<open>str\<close>, here a \<open>string\<close>. The input file is the sequence of strings
  that its successive \<open>readline\<close> calls return; at the end of the file \<open>readline\<close> returns
  the empty string. The output file \<open>branches_file\<close> is the sequence of strings handed to
  its \<open>write\<close> method, in the order of the calls.
\<close>

subsection \<open>String tests\<close>

text \<open>\<open>startswith s p\<close> is Python's \<open>s.startswith(p)\<close>.\<close>

fun startswith :: "string \<Rightarrow> string \<Rightarrow> bool" where
  "startswith s [] = True"
| "startswith [] (p # ps) = False"
| "startswith (c # cs) (p # ps) = (c = p \<and> startswith cs ps)"

text \<open>\<open>str_in sub s\<close> is Python's \<open>sub in s\<close>: \<open>sub\<close> occurs in \<open>s\<close> as a contiguous piece.\<close>

fun str_in :: "string \<Rightarrow> string \<Rightarrow> bool" where
  "str_in sub [] = (sub = [])"
| "str_in sub (c # cs) = (startswith (c # cs) sub \<or> str_in sub cs)"

text \<open>The value of the module constant \<open>TARGET_COD_TOM\<close> (line 205).\<close>

definition TARGET_COD_TOM :: string where
  "TARGET_COD_TOM = ''|3685|''"

subsection \<open>The state of the loop\<close>

text \<open>
  The local variables of \<open>process_text_file\<close> (lines 370 to 375) and the output file.
  Python's integers are unbounded, so the two counters are of type \<open>int\<close>.
\<close>

record state =
  OFF_COUNTY :: bool
  RECORD_FLAG :: bool
  LINES_LIST :: "string list"
  TOTAL_COMPANIES_FOUND :: int
  TOTAL_COMPANIES_RECORDED :: int
  NO_BRANCHES_FOUND :: bool
  branches_file :: "string list"

definition initial_state :: state where
  "initial_state =
     \<lparr>OFF_COUNTY = False, RECORD_FLAG = False, LINES_LIST = [],
      TOTAL_COMPANIES_FOUND = 0, TOTAL_COMPANIES_RECORDED = 0,
      NO_BRANCHES_FOUND = True, branches_file = []\<rparr>"

subsection \<open>The loop body\<close>

text \<open>
  One pass through the body of the \<open>while\<close> loop (lines 383 to 408) on the line just
  read. The target county code is a parameter; the source reads it from the module
  constant. The branches are those of the source's \<open>if\<close>/\<open>elif\<close> chain, in its order; a
  line that matches none of them leaves the state as it is.
\<close>

definition step :: "string \<Rightarrow> state \<Rightarrow> string \<Rightarrow> state" where
  "step tgt st line =
     (if startswith line ''STARTS'' \<or> startswith line ''ENDS'' then
        st\<lparr>branches_file := branches_file st @ [line]\<rparr>
      else if startswith line ''BLOCKSTARTS'' then
        (let st1 = (if \<not> str_in tgt line then
                      st\<lparr>LINES_LIST := LINES_LIST st @ [line], OFF_COUNTY := True\<rparr>
                    else st\<lparr>OFF_COUNTY := False\<rparr>)
         in st1\<lparr>TOTAL_COMPANIES_FOUND := TOTAL_COMPANIES_FOUND st1 + 1\<rparr>)
      else if startswith line ''COUNTYSTARTS'' \<and> OFF_COUNTY st then
        (let st1 = st\<lparr>LINES_LIST := LINES_LIST st @ [line]\<rparr>
         in if str_in tgt line then st1\<lparr>RECORD_FLAG := True\<rparr> else st1)
      else if startswith line ''COUNTYENDS'' \<and> OFF_COUNTY st then
        (let st1 = st\<lparr>LINES_LIST := LINES_LIST st @ [line]\<rparr>;
             st2 = (if RECORD_FLAG st1 then
                      st1\<lparr>branches_file := branches_file st1 @ LINES_LIST st1,
                          NO_BRANCHES_FOUND := False,
                          TOTAL_COMPANIES_RECORDED := TOTAL_COMPANIES_RECORDED st1 + 1\<rparr>
                    else st1)
         in st2\<lparr>OFF_COUNTY := False, RECORD_FLAG := False, LINES_LIST := []\<rparr>)
      else if OFF_COUNTY st then
        st\<lparr>LINES_LIST := LINES_LIST st @ [line]\<rparr>
      else st)"

subsection \<open>The loop\<close>

text \<open>
  \<open>line = file.readline()\<close> followed by \<open>while line:\<close> (lines 381, 382 and 409): the loop
  ends when the file is exhausted, and also at a string that is empty, which is what
  \<open>readline\<close> returns at the end of the file.
\<close>

fun scan :: "string \<Rightarrow> state \<Rightarrow> string list \<Rightarrow> state" where
  "scan tgt st [] = st"
| "scan tgt st (line # rest) =
     (if line = [] then st else scan tgt (step tgt st line) rest)"

definition process_text_file :: "string \<Rightarrow> string list \<Rightarrow> state" where
  "process_text_file tgt file = scan tgt initial_state file"

subsection \<open>Classes of lines\<close>

text \<open>An envelope marker is a line that the first branch of the loop body takes.\<close>

definition envelope :: "string \<Rightarrow> bool" where
  "envelope line = (startswith line ''STARTS'' \<or> startswith line ''ENDS'')"

subsection \<open>Predicates on states and inputs\<close>

text \<open>
  The counters are consistent when the companies recorded, plus the one still being
  scanned if there is one, do not exceed the companies found.
\<close>

definition counters_ok :: "state \<Rightarrow> bool" where
  "counters_ok st =
     (TOTAL_COMPANIES_RECORDED st + (if OFF_COUNTY st then 1 else 0) \<le> TOTAL_COMPANIES_FOUND st)"

text \<open>
  When no company is being scanned, the buffer is empty and the match flag is down.
\<close>

definition clean_when_closed :: "state \<Rightarrow> bool" where
  "clean_when_closed st = (OFF_COUNTY st \<or> (LINES_LIST st = [] \<and> \<not> RECORD_FLAG st))"

text \<open>
  \<open>blocks_closed tgt st ls\<close>: started in state \<open>st\<close>, the loop reads no line with prefix
  \<open>BLOCKSTARTS\<close> among \<open>ls\<close> while a company is still being scanned. Each company that
  took the scanning branch has then been closed by a line with prefix \<open>COUNTYENDS\<close>
  before the next company starts.
\<close>

fun blocks_closed :: "string \<Rightarrow> state \<Rightarrow> string list \<Rightarrow> bool" where
  "blocks_closed tgt st [] = True"
| "blocks_closed tgt st (l # ls) =
     (\<not> (startswith l ''BLOCKSTARTS'' \<and> OFF_COUNTY st) \<and> blocks_closed tgt (step tgt st l) ls)"

text \<open>
  The lines of company blocks seen so far that are not yet given up: those already
  written (the output without its envelope markers) followed by those in the buffer.
\<close>

definition block_lines :: "state \<Rightarrow> string list" where
  "block_lines st = filter (\<lambda>l. \<not> envelope l) (branches_file st) @ LINES_LIST st"

section \<open>Basic facts\<close>

subsection \<open>The five prefixes exclude one another\<close>

lemma startswith_iff: "startswith s p \<longleftrightarrow> (\<exists>t. s = p @ t)"
  by (induction s p rule: startswith.induct) auto

lemma startswith_nonempty: "startswith l (p # ps) \<Longrightarrow> l \<noteq> []"
  by (cases l) simp_all

lemma blockstarts_not_envelope: "startswith l ''BLOCKSTARTS'' \<Longrightarrow> \<not> envelope l"
  by (auto simp: startswith_iff envelope_def)

lemma countystarts_not_envelope: "startswith l ''COUNTYSTARTS'' \<Longrightarrow> \<not> envelope l"
  by (auto simp: startswith_iff envelope_def)

lemma countyends_not_envelope: "startswith l ''COUNTYENDS'' \<Longrightarrow> \<not> envelope l"
  by (auto simp: startswith_iff envelope_def)

lemma countyends_not_blockstarts:
  "startswith l ''COUNTYENDS'' \<Longrightarrow> \<not> startswith l ''BLOCKSTARTS''"
  by (auto simp: startswith_iff)

lemma countyends_not_countystarts:
  "startswith l ''COUNTYENDS'' \<Longrightarrow> \<not> startswith l ''COUNTYSTARTS''"
  by (auto simp: startswith_iff)

subsection \<open>The loop body, branch by branch\<close>

lemma step_envelope:
  "envelope l \<Longrightarrow> step tgt st l = st\<lparr>branches_file := branches_file st @ [l]\<rparr>"
  by (simp add: step_def envelope_def)

lemma step_block_home:
  "startswith l ''BLOCKSTARTS'' \<Longrightarrow> str_in tgt l \<Longrightarrow>
   step tgt st l = st\<lparr>OFF_COUNTY := False, TOTAL_COMPANIES_FOUND := TOTAL_COMPANIES_FOUND st + 1\<rparr>"
  using blockstarts_not_envelope [of l] by (simp add: step_def envelope_def)

lemma step_block_scan:
  "startswith l ''BLOCKSTARTS'' \<Longrightarrow> \<not> str_in tgt l \<Longrightarrow>
   step tgt st l = st\<lparr>LINES_LIST := LINES_LIST st @ [l], OFF_COUNTY := True,
                       TOTAL_COMPANIES_FOUND := TOTAL_COMPANIES_FOUND st + 1\<rparr>"
  using blockstarts_not_envelope [of l] by (simp add: step_def envelope_def)

lemma step_outside:
  "\<not> OFF_COUNTY st \<Longrightarrow> \<not> envelope l \<Longrightarrow> \<not> startswith l ''BLOCKSTARTS'' \<Longrightarrow> step tgt st l = st"
  by (simp add: step_def envelope_def)

lemma step_inside:
  "OFF_COUNTY st \<Longrightarrow> \<not> envelope l \<Longrightarrow> \<not> startswith l ''BLOCKSTARTS'' \<Longrightarrow>
   \<not> startswith l ''COUNTYENDS'' \<Longrightarrow>
   step tgt st l =
     st\<lparr>LINES_LIST := LINES_LIST st @ [l],
        RECORD_FLAG := (RECORD_FLAG st \<or> (startswith l ''COUNTYSTARTS'' \<and> str_in tgt l))\<rparr>"
  by (cases "startswith l ''COUNTYSTARTS''"; cases "str_in tgt l")
     (simp_all add: step_def envelope_def Let_def)

lemma step_close_keep:
  "OFF_COUNTY st \<Longrightarrow> RECORD_FLAG st \<Longrightarrow> startswith l ''COUNTYENDS'' \<Longrightarrow>
   step tgt st l =
     st\<lparr>OFF_COUNTY := False, RECORD_FLAG := False, LINES_LIST := [],
        TOTAL_COMPANIES_RECORDED := TOTAL_COMPANIES_RECORDED st + 1,
        NO_BRANCHES_FOUND := False,
        branches_file := branches_file st @ LINES_LIST st @ [l]\<rparr>"
  using countyends_not_envelope [of l] countyends_not_blockstarts [of l]
    countyends_not_countystarts [of l]
  by (simp add: step_def envelope_def)

lemma step_close_drop:
  "OFF_COUNTY st \<Longrightarrow> \<not> RECORD_FLAG st \<Longrightarrow> startswith l ''COUNTYENDS'' \<Longrightarrow>
   step tgt st l = st\<lparr>OFF_COUNTY := False, LINES_LIST := []\<rparr>"
  using countyends_not_envelope [of l] countyends_not_blockstarts [of l]
    countyends_not_countystarts [of l]
  by (simp add: step_def envelope_def)

subsection \<open>The loop on a stretch of lines\<close>

lemma scan_append:
  "[] \<notin> set xs \<Longrightarrow> scan tgt st (xs @ ys) = scan tgt (scan tgt st xs) ys"
  by (induction xs arbitrary: st) auto

text \<open>With no company being scanned, and until the next company starts, only envelope markers are written.\<close>

lemma scan_outside:
  "\<not> OFF_COUNTY st \<Longrightarrow> \<forall>l\<in>set ls. l \<noteq> [] \<and> \<not> startswith l ''BLOCKSTARTS'' \<Longrightarrow>
   scan tgt st ls = st\<lparr>branches_file := branches_file st @ filter envelope ls\<rparr>"
proof (induction ls arbitrary: st)
  case Nil
  then show ?case by simp
next
  case (Cons l ls)
  show ?case
  proof (cases "envelope l")
    case True
    with Cons show ?thesis by (simp add: step_envelope)
  next
    case False
    with Cons show ?thesis by (simp add: step_outside)
  qed
qed

text \<open>
  While a company is being scanned, and until it is closed or the next one starts, envelope
  markers are written and every other line goes to the buffer.
\<close>

lemma scan_inside:
  "OFF_COUNTY st \<Longrightarrow>
   \<forall>l\<in>set ls. l \<noteq> [] \<and> \<not> startswith l ''BLOCKSTARTS'' \<and> \<not> startswith l ''COUNTYENDS'' \<Longrightarrow>
   scan tgt st ls =
     st\<lparr>LINES_LIST := LINES_LIST st @ filter (\<lambda>l. \<not> envelope l) ls,
        RECORD_FLAG := (RECORD_FLAG st \<or> (\<exists>l\<in>set ls. startswith l ''COUNTYSTARTS'' \<and> str_in tgt l)),
        branches_file := branches_file st @ filter envelope ls\<rparr>"
proof (induction ls arbitrary: st)
  case Nil
  then show ?case by simp
next
  case (Cons l ls)
  show ?case
  proof (cases "envelope l")
    case True
    then have "\<not> startswith l ''COUNTYSTARTS''"
      using countystarts_not_envelope by blast
    with True Cons show ?thesis
      by (simp add: step_envelope)
  next
    case False
    with Cons show ?thesis by (auto simp add: step_inside)
  qed
qed

subsection \<open>The counters\<close>

lemma counters_ok_step: "counters_ok st \<Longrightarrow> counters_ok (step tgt st l)"
  by (cases "OFF_COUNTY st") (auto simp add: counters_ok_def step_def Let_def)

lemma counters_ok_scan: "counters_ok st \<Longrightarrow> counters_ok (scan tgt st ls)"
  by (induction ls arbitrary: st) (simp_all add: counters_ok_step)

lemma found_step:
  "TOTAL_COMPANIES_FOUND (step tgt st l) =
     TOTAL_COMPANIES_FOUND st + (if startswith l ''BLOCKSTARTS'' then 1 else 0)"
  using blockstarts_not_envelope [of l]
  by (simp add: step_def envelope_def Let_def)

lemma found_scan:
  "[] \<notin> set ls \<Longrightarrow>
   TOTAL_COMPANIES_FOUND (scan tgt st ls) =
     TOTAL_COMPANIES_FOUND st + int (length (filter (\<lambda>l. startswith l ''BLOCKSTARTS'') ls))"
  by (induction ls arbitrary: st) (auto simp: found_step)

subsection \<open>A company that takes the scanning branch\<close>

text \<open>
  From the start line \<open>b\<close> of a company that does not contain the target code, through
  lines \<open>body\<close> that neither start a company nor close a county sub-block: the envelope
  markers among them are written, every other line is appended to the buffer after \<open>b\<close>,
  and the match flag goes up at a line with prefix \<open>COUNTYSTARTS\<close> that contains the
  target code.
\<close>

lemma scan_block_open:
  assumes "[] \<notin> set pre"
    and "startswith b ''BLOCKSTARTS''" and "\<not> str_in tgt b"
    and "\<forall>l\<in>set body. l \<noteq> [] \<and> \<not> startswith l ''BLOCKSTARTS'' \<and> \<not> startswith l ''COUNTYENDS''"
  shows "scan tgt st (pre @ b # body) =
           (scan tgt st pre)
             \<lparr>LINES_LIST := LINES_LIST (scan tgt st pre) @ b # filter (\<lambda>l. \<not> envelope l) body,
              OFF_COUNTY := True,
              TOTAL_COMPANIES_FOUND := TOTAL_COMPANIES_FOUND (scan tgt st pre) + 1,
              RECORD_FLAG := (RECORD_FLAG (scan tgt st pre) \<or>
                 (\<exists>l\<in>set body. startswith l ''COUNTYSTARTS'' \<and> str_in tgt l)),
              branches_file := branches_file (scan tgt st pre) @ filter envelope body\<rparr>"
proof -
  let ?s0 = "scan tgt st pre"
  let ?s1 = "?s0\<lparr>LINES_LIST := LINES_LIST ?s0 @ [b], OFF_COUNTY := True,
                 TOTAL_COMPANIES_FOUND := TOTAL_COMPANIES_FOUND ?s0 + 1\<rparr>"
  have b: "b \<noteq> []"
    using assms(2) by (rule startswith_nonempty)
  have s1: "step tgt ?s0 b = ?s1"
    using assms(2,3) by (rule step_block_scan)
  have "scan tgt st (pre @ b # body) = scan tgt (step tgt ?s0 b) body"
    using assms(1) b by (simp add: scan_append)
  also have "\<dots> = scan tgt ?s1 body"
    by (simp only: s1)
  also have "\<dots> = ?s1\<lparr>LINES_LIST := LINES_LIST ?s1 @ filter (\<lambda>l. \<not> envelope l) body,
        RECORD_FLAG := (RECORD_FLAG ?s1 \<or> (\<exists>l\<in>set body. startswith l ''COUNTYSTARTS'' \<and> str_in tgt l)),
        branches_file := branches_file ?s1 @ filter envelope body\<rparr>"
    using assms(4) by (intro scan_inside) simp_all
  finally show ?thesis
    by simp
qed

subsection \<open>The buffer and the flag between companies\<close>

lemma clean_when_closed_step:
  assumes "clean_when_closed st" and "\<not> (startswith l ''BLOCKSTARTS'' \<and> OFF_COUNTY st)"
  shows "clean_when_closed (step tgt st l)"
proof -
  consider (env) "envelope l"
    | (home) "\<not> envelope l" "startswith l ''BLOCKSTARTS''" "str_in tgt l"
    | (opened) "\<not> envelope l" "startswith l ''BLOCKSTARTS''" "\<not> str_in tgt l"
    | (out) "\<not> envelope l" "\<not> startswith l ''BLOCKSTARTS''" "\<not> OFF_COUNTY st"
    | (keep) "OFF_COUNTY st" "startswith l ''COUNTYENDS''" "RECORD_FLAG st"
    | (drop) "OFF_COUNTY st" "startswith l ''COUNTYENDS''" "\<not> RECORD_FLAG st"
    | (buf) "OFF_COUNTY st" "\<not> envelope l" "\<not> startswith l ''BLOCKSTARTS''"
        "\<not> startswith l ''COUNTYENDS''"
    using countyends_not_envelope countyends_not_blockstarts by blast
  then show ?thesis
  proof cases
    case env
    then show ?thesis using assms by (simp add: step_envelope clean_when_closed_def)
  next
    case home
    then show ?thesis using assms by (simp add: step_block_home clean_when_closed_def)
  next
    case opened
    then show ?thesis by (simp add: step_block_scan clean_when_closed_def)
  next
    case out
    then show ?thesis using assms by (simp add: step_outside)
  next
    case keep
    then show ?thesis by (simp add: step_close_keep clean_when_closed_def)
  next
    case drop
    then show ?thesis by (simp add: step_close_drop clean_when_closed_def)
  next
    case buf
    then show ?thesis by (simp add: step_inside clean_when_closed_def)
  qed
qed

lemma clean_when_closed_scan:
  "clean_when_closed st \<Longrightarrow> [] \<notin> set ls \<Longrightarrow> blocks_closed tgt st (ls @ [line]) \<Longrightarrow>
   clean_when_closed (scan tgt st ls) \<and> \<not> (startswith line ''BLOCKSTARTS'' \<and> OFF_COUNTY (scan tgt st ls))"
proof (induction ls arbitrary: st)
  case Nil
  then show ?case by simp
next
  case (Cons l ls)
  from Cons.prems have "clean_when_closed (step tgt st l)"
    by (simp add: clean_when_closed_step)
  moreover from Cons.prems have "[] \<notin> set ls" and "blocks_closed tgt (step tgt st l) (ls @ [line])"
    by simp_all
  ultimately have "clean_when_closed (scan tgt (step tgt st l) ls) \<and>
      \<not> (startswith line ''BLOCKSTARTS'' \<and> OFF_COUNTY (scan tgt (step tgt st l) ls))"
    by (rule Cons.IH)
  moreover from Cons.prems(2) have "l \<noteq> []"
    by auto
  ultimately show ?case
    by simp
qed

subsection \<open>Block lines come in the order of the input\<close>

lemma subseq_snoc: "subseq xs ys \<Longrightarrow> subseq (xs @ [l]) (ys @ [l])"
  by (simp add: list_emb_append_mono)

lemma subseq_drop_buffer:
  assumes "subseq (xs @ ys) hist"
  shows "subseq (xs @ filter P ys) hist"
proof -
  have "subseq (xs @ filter P ys) (xs @ ys)"
    by (simp add: subseq_append')
  then show ?thesis
    using assms by (rule subseq_order.trans)
qed

lemma block_lines_step:
  assumes "subseq (block_lines st) hist"
  shows "subseq (block_lines (step tgt st l)) (hist @ [l])"
proof -
  have keep: "subseq (block_lines st) (hist @ [l])"
    using assms by (rule subseq_rev_drop_many)
  have grow: "subseq (block_lines st @ [l]) (hist @ [l])"
    using assms by (rule subseq_snoc)
  consider (env) "envelope l"
    | (home) "\<not> envelope l" "startswith l ''BLOCKSTARTS''" "str_in tgt l"
    | (opened) "\<not> envelope l" "startswith l ''BLOCKSTARTS''" "\<not> str_in tgt l"
    | (out) "\<not> envelope l" "\<not> startswith l ''BLOCKSTARTS''" "\<not> OFF_COUNTY st"
    | (keep) "OFF_COUNTY st" "startswith l ''COUNTYENDS''" "RECORD_FLAG st"
    | (drop) "OFF_COUNTY st" "startswith l ''COUNTYENDS''" "\<not> RECORD_FLAG st"
    | (buf) "OFF_COUNTY st" "\<not> envelope l" "\<not> startswith l ''BLOCKSTARTS''"
        "\<not> startswith l ''COUNTYENDS''"
    using countyends_not_envelope countyends_not_blockstarts by blast
  then show ?thesis
  proof cases
    case env
    then show ?thesis using keep by (simp add: step_envelope block_lines_def)
  next
    case home
    then show ?thesis using keep by (simp add: step_block_home block_lines_def)
  next
    case opened
    then show ?thesis using grow by (simp add: step_block_scan block_lines_def)
  next
    case out
    then show ?thesis using keep by (simp add: step_outside)
  next
    case keep
    have "subseq (filter (\<lambda>l. \<not> envelope l) (branches_file st)
            @ filter (\<lambda>l. \<not> envelope l) (LINES_LIST st)) hist"
      using assms unfolding block_lines_def by (rule subseq_drop_buffer)
    then have "subseq ((filter (\<lambda>l. \<not> envelope l) (branches_file st)
            @ filter (\<lambda>l. \<not> envelope l) (LINES_LIST st)) @ [l]) (hist @ [l])"
      by (rule subseq_snoc)
    moreover have "\<not> envelope l"
      using keep(2) by (rule countyends_not_envelope)
    ultimately show ?thesis
      using keep by (simp add: step_close_keep block_lines_def)
  next
    case drop
    have "subseq (filter (\<lambda>l. \<not> envelope l) (branches_file st)
            @ filter (\<lambda>l. False) (LINES_LIST st)) hist"
      using assms unfolding block_lines_def by (rule subseq_drop_buffer)
    then have "subseq (filter (\<lambda>l. \<not> envelope l) (branches_file st)) (hist @ [l])"
      by (simp add: subseq_rev_drop_many)
    then show ?thesis
      using drop by (simp add: step_close_drop block_lines_def)
  next
    case buf
    then show ?thesis using grow by (simp add: step_inside block_lines_def)
  qed
qed

lemma block_lines_scan:
  "subseq (block_lines st) hist \<Longrightarrow> subseq (block_lines (scan tgt st ls)) (hist @ ls)"
proof (induction ls arbitrary: st hist)
  case Nil
  then show ?case by simp
next
  case (Cons l ls)
  show ?case
  proof (cases "l = []")
    case True
    then show ?thesis
      using Cons.prems by (simp add: subseq_rev_drop_many)
  next
    case False
    have "subseq (block_lines (step tgt st l)) (hist @ [l])"
      using Cons.prems by (rule block_lines_step)
    then have "subseq (block_lines (scan tgt (step tgt st l) ls)) ((hist @ [l]) @ ls)"
      by (rule Cons.IH)
    then show ?thesis
      using False by simp
  qed
qed

section \<open>The claims\<close>

subsection \<open>C1: input of envelope markers and ordinary lines\<close>

text \<open>
  C1 as the specification states it: an input made of envelope markers and ordinary
  lines only is reproduced line for line. The loop body has no branch that writes an
  ordinary line: outside a scanned company such a line matches no branch and is
  dropped. On the three lines \<open>STARTS\<close>, \<open>data-row-A\<close>, \<open>ENDS\<close> the output is not the input.
\<close>

theorem pass_through_counterexample:
  "branches_file (process_text_file TARGET_COD_TOM
      [''STARTS\<newline>'', ''data-row-A\<newline>'', ''ENDS\<newline>''])
   \<noteq> [''STARTS\<newline>'', ''data-row-A\<newline>'', ''ENDS\<newline>'']"
  by (simp add: process_text_file_def initial_state_def step_def TARGET_COD_TOM_def)

text \<open>
  C1 amended: for every input made of envelope markers and ordinary lines only (no line
  with prefix \<open>BLOCKSTARTS\<close>, \<open>COUNTYSTARTS\<close> or \<open>COUNTYENDS\<close>), the output is exactly the
  envelope markers of the input, in their order; the ordinary lines are not written.
\<close>

theorem envelope_only_output:
  assumes "\<forall>l\<in>set file. l \<noteq> [] \<and> \<not> startswith l ''BLOCKSTARTS'' \<and>
             \<not> startswith l ''COUNTYSTARTS'' \<and> \<not> startswith l ''COUNTYENDS''"
  shows "branches_file (process_text_file tgt file) = filter envelope file"
proof -
  have "\<not> OFF_COUNTY initial_state"
    by (simp add: initial_state_def)
  moreover have "\<forall>l\<in>set file. l \<noteq> [] \<and> \<not> startswith l ''BLOCKSTARTS''"
    using assms by blast
  ultimately have "scan tgt initial_state file =
      initial_state\<lparr>branches_file := branches_file initial_state @ filter envelope file\<rparr>"
    by (rule scan_outside)
  then show ?thesis
    by (simp add: process_text_file_def initial_state_def)
qed

theorem envelope_only_output_witness:
  "list_all (\<lambda>l. l \<noteq> [] \<and> \<not> startswith l ''BLOCKSTARTS'' \<and>
      \<not> startswith l ''COUNTYSTARTS'' \<and> \<not> startswith l ''COUNTYENDS'')
     [''STARTS\<newline>'', ''data-row-A\<newline>'', ''ENDS\<newline>''] \<and>
   branches_file (process_text_file TARGET_COD_TOM
      [''STARTS\<newline>'', ''data-row-A\<newline>'', ''ENDS\<newline>''])
   = [''STARTS\<newline>'', ''ENDS\<newline>'']"
  using envelope_only_output
    [of "[''STARTS\<newline>'', ''data-row-A\<newline>'', ''ENDS\<newline>'']" TARGET_COD_TOM]
  by (simp add: envelope_def)

subsection \<open>C2: the buffer and the flag at the start of a company\<close>

text \<open>
  C2 as the specification states it: whenever a line with prefix \<open>BLOCKSTARTS\<close> takes the
  scanning branch, the match flag is false and the buffer holds that line alone, also when
  the previous company was not closed. The loop body resets the flag and clears the
  buffer only where a line with prefix \<open>COUNTYENDS\<close> closes a company (lines 404 to 406),
  not where a company starts (lines 385 to 391). After \<open>BLOCKSTARTS|1111|\<close> and
  \<open>COUNTYSTARTS|3685|\<close>, with no closing line, the flag is up when \<open>BLOCKSTARTS|2222|\<close>
  arrives, and the buffer then holds all three lines.
\<close>

theorem fresh_block_state_counterexample:
  "startswith ''BLOCKSTARTS|2222|\<newline>'' ''BLOCKSTARTS'' \<and>
   \<not> str_in TARGET_COD_TOM ''BLOCKSTARTS|2222|\<newline>'' \<and>
   RECORD_FLAG (process_text_file TARGET_COD_TOM
      [''BLOCKSTARTS|1111|\<newline>'', ''COUNTYSTARTS|3685|\<newline>'']) \<and>
   LINES_LIST (process_text_file TARGET_COD_TOM
      [''BLOCKSTARTS|1111|\<newline>'', ''COUNTYSTARTS|3685|\<newline>'', ''BLOCKSTARTS|2222|\<newline>''])
     = [''BLOCKSTARTS|1111|\<newline>'', ''COUNTYSTARTS|3685|\<newline>'', ''BLOCKSTARTS|2222|\<newline>'']"
  by (simp add: process_text_file_def initial_state_def step_def TARGET_COD_TOM_def)

text \<open>
  C2 amended: in every input where no line with prefix \<open>BLOCKSTARTS\<close> is read while an
  earlier company is still being scanned (each company that took the scanning branch
  was closed by a line with prefix \<open>COUNTYENDS\<close> before the next company started),
  whenever a line with prefix \<open>BLOCKSTARTS\<close> that does not contain the target code is
  read, the match flag is false and the buffer is empty at that moment, and the buffer
  holds exactly that line once it has been read.
\<close>

theorem fresh_block_state:
  assumes "[] \<notin> set pre"
    and "blocks_closed tgt initial_state (pre @ [line])"
    and "startswith line ''BLOCKSTARTS''" and "\<not> str_in tgt line"
  shows "\<not> RECORD_FLAG (process_text_file tgt pre) \<and>
         LINES_LIST (process_text_file tgt pre) = [] \<and>
         LINES_LIST (process_text_file tgt (pre @ [line])) = [line]"
proof -
  let ?s0 = "scan tgt initial_state pre"
  have "clean_when_closed initial_state"
    by (simp add: clean_when_closed_def initial_state_def)
  then have "clean_when_closed ?s0 \<and> \<not> (startswith line ''BLOCKSTARTS'' \<and> OFF_COUNTY ?s0)"
    using assms(1,2) by (rule clean_when_closed_scan)
  then have s0: "LINES_LIST ?s0 = []" "\<not> RECORD_FLAG ?s0"
    using assms(3) by (auto simp: clean_when_closed_def)
  have "line \<noteq> []"
    using assms(3) by (rule startswith_nonempty)
  then have "scan tgt initial_state (pre @ [line]) = step tgt ?s0 line"
    using assms(1) by (simp add: scan_append)
  then have "LINES_LIST (scan tgt initial_state (pre @ [line])) = [line]"
    using assms(3,4) s0 by (simp add: step_block_scan)
  then show ?thesis
    using s0 by (simp add: process_text_file_def)
qed

theorem fresh_block_state_witness:
  "[] \<notin> set [''STARTS\<newline>'', ''BLOCKSTARTS|1111|\<newline>'', ''COUNTYSTARTS|3685|\<newline>'',
               ''COUNTYENDS\<newline>''] \<and>
   blocks_closed TARGET_COD_TOM initial_state
     [''STARTS\<newline>'', ''BLOCKSTARTS|1111|\<newline>'', ''COUNTYSTARTS|3685|\<newline>'',
      ''COUNTYENDS\<newline>'', ''BLOCKSTARTS|2222|\<newline>''] \<and>
   \<not> RECORD_FLAG (process_text_file TARGET_COD_TOM
     [''STARTS\<newline>'', ''BLOCKSTARTS|1111|\<newline>'', ''COUNTYSTARTS|3685|\<newline>'',
      ''COUNTYENDS\<newline>'']) \<and>
   LINES_LIST (process_text_file TARGET_COD_TOM
     [''STARTS\<newline>'', ''BLOCKSTARTS|1111|\<newline>'', ''COUNTYSTARTS|3685|\<newline>'',
      ''COUNTYENDS\<newline>'', ''BLOCKSTARTS|2222|\<newline>'']) = [''BLOCKSTARTS|2222|\<newline>'']"
  using fresh_block_state
    [of "[''STARTS\<newline>'', ''BLOCKSTARTS|1111|\<newline>'', ''COUNTYSTARTS|3685|\<newline>'',
          ''COUNTYENDS\<newline>'']" TARGET_COD_TOM "''BLOCKSTARTS|2222|\<newline>''"]
  by (simp add: initial_state_def step_def TARGET_COD_TOM_def)

subsection \<open>C3: a company whose first county sub-block matches\<close>

text \<open>
  C3: a company whose start line \<open>b\<close> does not contain the target code and whose first
  county sub-block starts with a line \<open>cs\<close> that contains it. At the closing line \<open>ce\<close> of
  that sub-block the whole buffer is written, in the order of the input: the lines
  left in the buffer by the input before the company, if any, then \<open>b\<close>, the lines \<open>mid1\<close>
  before the sub-block, \<open>cs\<close>, the lines \<open>mid2\<close> of the sub-block and \<open>ce\<close>. The count of
  companies recorded goes up by one and the buffer is left empty. Envelope markers among
  \<open>mid1\<close> and \<open>mid2\<close> are never buffered: they were written when they were read (C8).
\<close>

theorem single_match_inclusion:
  assumes "[] \<notin> set pre"
    and "startswith b ''BLOCKSTARTS''" and "\<not> str_in tgt b"
    and "\<forall>l\<in>set mid1. l \<noteq> [] \<and> \<not> startswith l ''BLOCKSTARTS'' \<and>
           \<not> startswith l ''COUNTYSTARTS'' \<and> \<not> startswith l ''COUNTYENDS''"
    and "startswith cs ''COUNTYSTARTS''" and "str_in tgt cs"
    and "\<forall>l\<in>set mid2. l \<noteq> [] \<and> \<not> startswith l ''BLOCKSTARTS'' \<and> \<not> startswith l ''COUNTYENDS''"
    and "startswith ce ''COUNTYENDS''"
  shows "process_text_file tgt (pre @ b # mid1 @ cs # mid2 @ [ce]) =
           (process_text_file tgt pre)
             \<lparr>OFF_COUNTY := False, RECORD_FLAG := False, LINES_LIST := [],
              TOTAL_COMPANIES_FOUND := TOTAL_COMPANIES_FOUND (process_text_file tgt pre) + 1,
              TOTAL_COMPANIES_RECORDED := TOTAL_COMPANIES_RECORDED (process_text_file tgt pre) + 1,
              NO_BRANCHES_FOUND := False,
              branches_file := branches_file (process_text_file tgt pre)
                @ filter envelope (mid1 @ mid2)
                @ LINES_LIST (process_text_file tgt pre)
                @ b # filter (\<lambda>l. \<not> envelope l) mid1 @ cs # filter (\<lambda>l. \<not> envelope l) mid2 @ [ce]\<rparr>"
proof -
  let ?s0 = "scan tgt initial_state pre"
  let ?body = "mid1 @ cs # mid2"
  have cs: "cs \<noteq> []" "\<not> envelope cs" "\<not> startswith cs ''BLOCKSTARTS''"
      "\<not> startswith cs ''COUNTYENDS''"
    using assms(5) by (auto simp: startswith_iff envelope_def)
  have ce: "ce \<noteq> []"
    using assms(8) by (rule startswith_nonempty)
  have body: "\<forall>l\<in>set ?body. l \<noteq> [] \<and> \<not> startswith l ''BLOCKSTARTS'' \<and> \<not> startswith l ''COUNTYENDS''"
    using assms(4,7) cs by auto
  have hit: "\<exists>l\<in>set ?body. startswith l ''COUNTYSTARTS'' \<and> str_in tgt l"
    using assms(5,6) by auto
  let ?s2 = "scan tgt initial_state (pre @ b # ?body)"
  have s2: "?s2 = ?s0
      \<lparr>LINES_LIST := LINES_LIST ?s0 @ b # filter (\<lambda>l. \<not> envelope l) ?body,
       OFF_COUNTY := True,
       TOTAL_COMPANIES_FOUND := TOTAL_COMPANIES_FOUND ?s0 + 1,
       RECORD_FLAG := True,
       branches_file := branches_file ?s0 @ filter envelope ?body\<rparr>"
    using scan_block_open [OF assms(1,2,3) body, of initial_state] hit by simp
  have nonempty: "[] \<notin> set (pre @ b # ?body)"
    using assms(1,2) body by (auto dest: startswith_nonempty)
  have "scan tgt initial_state ((pre @ b # ?body) @ [ce]) = step tgt ?s2 ce"
    using scan_append [OF nonempty, of tgt initial_state "[ce]"] ce by simp
  also have "\<dots> = ?s2\<lparr>OFF_COUNTY := False, RECORD_FLAG := False, LINES_LIST := [],
        TOTAL_COMPANIES_RECORDED := TOTAL_COMPANIES_RECORDED ?s2 + 1,
        NO_BRANCHES_FOUND := False,
        branches_file := branches_file ?s2 @ LINES_LIST ?s2 @ [ce]\<rparr>"
    using assms(8) by (intro step_close_keep) (simp_all add: s2)
  finally show ?thesis
    using cs(2) by (simp add: s2 process_text_file_def)
qed

text \<open>
  The scenario of the specification: with target \<open>|3685|\<close>, the six lines \<open>STARTS\<close>,
  \<open>BLOCKSTARTS|1111|\<close>, \<open>COUNTYSTARTS|3685|\<close>, \<open>data-row-A\<close>, \<open>COUNTYENDS\<close>, \<open>ENDS\<close> are
  written as they are, with one company found and one recorded.
\<close>

theorem single_match_inclusion_witness:
  "[] \<notin> set [''STARTS\<newline>''] \<and>
   startswith ''BLOCKSTARTS|1111|\<newline>'' ''BLOCKSTARTS'' \<and>
   \<not> str_in TARGET_COD_TOM ''BLOCKSTARTS|1111|\<newline>'' \<and>
   startswith ''COUNTYSTARTS|3685|\<newline>'' ''COUNTYSTARTS'' \<and>
   str_in TARGET_COD_TOM ''COUNTYSTARTS|3685|\<newline>'' \<and>
   list_all (\<lambda>l. l \<noteq> [] \<and> \<not> startswith l ''BLOCKSTARTS'' \<and> \<not> startswith l ''COUNTYENDS'')
     [''data-row-A\<newline>''] \<and>
   startswith ''COUNTYENDS\<newline>'' ''COUNTYENDS'' \<and>
   branches_file (process_text_file TARGET_COD_TOM
     [''STARTS\<newline>'', ''BLOCKSTARTS|1111|\<newline>'', ''COUNTYSTARTS|3685|\<newline>'',
      ''data-row-A\<newline>'', ''COUNTYENDS\<newline>''])
     = [''STARTS\<newline>'', ''BLOCKSTARTS|1111|\<newline>'', ''COUNTYSTARTS|3685|\<newline>'',
        ''data-row-A\<newline>'', ''COUNTYENDS\<newline>''] \<and>
   branches_file (process_text_file TARGET_COD_TOM
     [''STARTS\<newline>'', ''BLOCKSTARTS|1111|\<newline>'', ''COUNTYSTARTS|3685|\<newline>'',
      ''data-row-A\<newline>'', ''COUNTYENDS\<newline>'', ''ENDS\<newline>''])
     = [''STARTS\<newline>'', ''BLOCKSTARTS|1111|\<newline>'', ''COUNTYSTARTS|3685|\<newline>'',
        ''data-row-A\<newline>'', ''COUNTYENDS\<newline>'', ''ENDS\<newline>''] \<and>
   TOTAL_COMPANIES_FOUND (process_text_file TARGET_COD_TOM
     [''STARTS\<newline>'', ''BLOCKSTARTS|1111|\<newline>'', ''COUNTYSTARTS|3685|\<newline>'',
      ''data-row-A\<newline>'', ''COUNTYENDS\<newline>'', ''ENDS\<newline>'']) = 1 \<and>
   TOTAL_COMPANIES_RECORDED (process_text_file TARGET_COD_TOM
     [''STARTS\<newline>'', ''BLOCKSTARTS|1111|\<newline>'', ''COUNTYSTARTS|3685|\<newline>'',
      ''data-row-A\<newline>'', ''COUNTYENDS\<newline>'', ''ENDS\<newline>'']) = 1"
  using single_match_inclusion
    [of "[''STARTS\<newline>'']" "''BLOCKSTARTS|1111|\<newline>''" TARGET_COD_TOM "[]"
        "''COUNTYSTARTS|3685|\<newline>''" "[''data-row-A\<newline>'']" "''COUNTYENDS\<newline>''"]
  by (simp add: process_text_file_def initial_state_def step_def TARGET_COD_TOM_def)

subsection \<open>C4: a company of the target county\<close>

text \<open>
  C4: a company whose start line contains the target county code adds one to the
  companies found and nothing to the companies recorded; none of its lines is written
  or buffered, whatever they are, matching county sub-blocks included. The lines \<open>body\<close>
  are those up to the next company start. The state after them is the state before the
  company with the count of companies found raised by one; the only lines written
  meanwhile are the envelope markers met on the way, which the loop writes in every
  state (C8).
\<close>

theorem home_county_exclusion:
  assumes "[] \<notin> set pre"
    and "startswith b ''BLOCKSTARTS''" and "str_in tgt b"
    and "\<forall>l\<in>set body. l \<noteq> [] \<and> \<not> startswith l ''BLOCKSTARTS''"
  shows "process_text_file tgt (pre @ b # body) =
           (process_text_file tgt pre)
             \<lparr>OFF_COUNTY := False,
              TOTAL_COMPANIES_FOUND := TOTAL_COMPANIES_FOUND (process_text_file tgt pre) + 1,
              branches_file := branches_file (process_text_file tgt pre) @ filter envelope body\<rparr>"
proof -
  let ?s0 = "scan tgt initial_state pre"
  have b: "b \<noteq> []"
    using assms(2) by (rule startswith_nonempty)
  have "scan tgt initial_state (pre @ b # body) = scan tgt (step tgt ?s0 b) body"
    using assms(1) b by (simp add: scan_append)
  also have "step tgt ?s0 b =
      ?s0\<lparr>OFF_COUNTY := False, TOTAL_COMPANIES_FOUND := TOTAL_COMPANIES_FOUND ?s0 + 1\<rparr>"
    using assms(2,3) by (rule step_block_home)
  also have "scan tgt \<dots> body =
      (?s0\<lparr>OFF_COUNTY := False, TOTAL_COMPANIES_FOUND := TOTAL_COMPANIES_FOUND ?s0 + 1\<rparr>)
        \<lparr>branches_file := branches_file ?s0 @ filter envelope body\<rparr>"
    using assms(4) by (simp add: scan_outside)
  finally show ?thesis
    by (simp add: process_text_file_def)
qed

text \<open>
  The second scenario of the specification: the company \<open>BLOCKSTARTS|3685|\<close> with a
  matching county sub-block inside. Only \<open>STARTS\<close> and \<open>ENDS\<close> are written; one company is
  found and none is recorded.
\<close>

theorem home_county_exclusion_witness:
  "[] \<notin> set [''STARTS\<newline>''] \<and>
   startswith ''BLOCKSTARTS|3685|\<newline>'' ''BLOCKSTARTS'' \<and>
   str_in TARGET_COD_TOM ''BLOCKSTARTS|3685|\<newline>'' \<and>
   list_all (\<lambda>l. l \<noteq> [] \<and> \<not> startswith l ''BLOCKSTARTS'')
     [''COUNTYSTARTS|3685|\<newline>'', ''data-row-A\<newline>'', ''COUNTYENDS\<newline>'', ''ENDS\<newline>''] \<and>
   branches_file (process_text_file TARGET_COD_TOM
     [''STARTS\<newline>'', ''BLOCKSTARTS|3685|\<newline>'', ''COUNTYSTARTS|3685|\<newline>'',
      ''data-row-A\<newline>'', ''COUNTYENDS\<newline>'', ''ENDS\<newline>''])
     = [''STARTS\<newline>'', ''ENDS\<newline>''] \<and>
   LINES_LIST (process_text_file TARGET_COD_TOM
     [''STARTS\<newline>'', ''BLOCKSTARTS|3685|\<newline>'', ''COUNTYSTARTS|3685|\<newline>'',
      ''data-row-A\<newline>'', ''COUNTYENDS\<newline>'', ''ENDS\<newline>'']) = [] \<and>
   TOTAL_COMPANIES_FOUND (process_text_file TARGET_COD_TOM
     [''STARTS\<newline>'', ''BLOCKSTARTS|3685|\<newline>'', ''COUNTYSTARTS|3685|\<newline>'',
      ''data-row-A\<newline>'', ''COUNTYENDS\<newline>'', ''ENDS\<newline>'']) = 1 \<and>
   TOTAL_COMPANIES_RECORDED (process_text_file TARGET_COD_TOM
     [''STARTS\<newline>'', ''BLOCKSTARTS|3685|\<newline>'', ''COUNTYSTARTS|3685|\<newline>'',
      ''data-row-A\<newline>'', ''COUNTYENDS\<newline>'', ''ENDS\<newline>'']) = 0"
  using home_county_exclusion
    [of "[''STARTS\<newline>'']" "''BLOCKSTARTS|3685|\<newline>''" TARGET_COD_TOM
        "[''COUNTYSTARTS|3685|\<newline>'', ''data-row-A\<newline>'', ''COUNTYENDS\<newline>'', ''ENDS\<newline>'']"]
  by (simp add: process_text_file_def initial_state_def step_def envelope_def TARGET_COD_TOM_def)

subsection \<open>C5: a company whose first county sub-block does not match\<close>

text \<open>
  C5 as the specification states it: in every input, a company being scanned whose
  first county sub-block starts with a line that does not contain the target code
  writes nothing. The match flag is not reset where a company starts, so a flag
  left up by an earlier company that was never closed decides for this one: after
  \<open>BLOCKSTARTS|1111|\<close> and \<open>COUNTYSTARTS|3685|\<close>, the company \<open>BLOCKSTARTS|2222|\<close> with the
  single sub-block \<open>COUNTYSTARTS|9999|\<close>, \<open>COUNTYENDS\<close> is written, with the lines before it.
\<close>

theorem non_match_exclusion_counterexample:
  "startswith ''BLOCKSTARTS|2222|\<newline>'' ''BLOCKSTARTS'' \<and>
   \<not> str_in TARGET_COD_TOM ''BLOCKSTARTS|2222|\<newline>'' \<and>
   startswith ''COUNTYSTARTS|9999|\<newline>'' ''COUNTYSTARTS'' \<and>
   \<not> str_in TARGET_COD_TOM ''COUNTYSTARTS|9999|\<newline>'' \<and>
   branches_file (process_text_file TARGET_COD_TOM
     [''BLOCKSTARTS|1111|\<newline>'', ''COUNTYSTARTS|3685|\<newline>'']) = [] \<and>
   branches_file (process_text_file TARGET_COD_TOM
     [''BLOCKSTARTS|1111|\<newline>'', ''COUNTYSTARTS|3685|\<newline>'',
      ''BLOCKSTARTS|2222|\<newline>'', ''COUNTYSTARTS|9999|\<newline>'', ''COUNTYENDS\<newline>''])
     = [''BLOCKSTARTS|1111|\<newline>'', ''COUNTYSTARTS|3685|\<newline>'',
        ''BLOCKSTARTS|2222|\<newline>'', ''COUNTYSTARTS|9999|\<newline>'', ''COUNTYENDS\<newline>'']"
  by (simp add: process_text_file_def initial_state_def step_def TARGET_COD_TOM_def)

text \<open>
  C5 amended: a company that starts to be scanned with the match flag false (as it is
  whenever each earlier scanned company was closed, see C2), whose first county
  sub-block starts with a line \<open>cs\<close> that does not contain the target code, and with no
  further line with prefix \<open>COUNTYSTARTS\<close> containing the target code before the closing
  line \<open>ce\<close> of that sub-block, adds no line of its own to the output. After \<open>ce\<close>, the
  lines \<open>rest\<close> up to the next company start, later sub-blocks with the target code
  included, are neither buffered nor written: the buffer stays empty, the count of
  companies recorded stays as it was, and the only lines written from the start of the
  company on are the envelope markers met on the way (C8).
\<close>

theorem non_match_exclusion:
  assumes "[] \<notin> set pre"
    and "\<not> RECORD_FLAG (process_text_file tgt pre)"
    and "startswith b ''BLOCKSTARTS''" and "\<not> str_in tgt b"
    and "\<forall>l\<in>set mid1. l \<noteq> [] \<and> \<not> startswith l ''BLOCKSTARTS'' \<and>
           \<not> startswith l ''COUNTYSTARTS'' \<and> \<not> startswith l ''COUNTYENDS''"
    and "startswith cs ''COUNTYSTARTS''" and "\<not> str_in tgt cs"
    and "\<forall>l\<in>set mid2. l \<noteq> [] \<and> \<not> startswith l ''BLOCKSTARTS'' \<and>
           \<not> startswith l ''COUNTYENDS'' \<and> \<not> (startswith l ''COUNTYSTARTS'' \<and> str_in tgt l)"
    and "startswith ce ''COUNTYENDS''"
    and "\<forall>l\<in>set rest. l \<noteq> [] \<and> \<not> startswith l ''BLOCKSTARTS''"
  shows "process_text_file tgt (pre @ b # mid1 @ cs # mid2 @ ce # rest) =
           (process_text_file tgt pre)
             \<lparr>OFF_COUNTY := False, LINES_LIST := [],
              TOTAL_COMPANIES_FOUND := TOTAL_COMPANIES_FOUND (process_text_file tgt pre) + 1,
              branches_file := branches_file (process_text_file tgt pre)
                @ filter envelope (mid1 @ mid2 @ rest)\<rparr>"
proof -
  let ?s0 = "scan tgt initial_state pre"
  let ?body = "mid1 @ cs # mid2"
  have flag0: "\<not> RECORD_FLAG ?s0"
    using assms(2) by (simp add: process_text_file_def)
  have cs: "cs \<noteq> []" "\<not> envelope cs" "\<not> startswith cs ''BLOCKSTARTS''"
      "\<not> startswith cs ''COUNTYENDS''"
    using assms(6) by (auto simp: startswith_iff envelope_def)
  have ce: "ce \<noteq> []"
    using assms(9) by (rule startswith_nonempty)
  have body: "\<forall>l\<in>set ?body. l \<noteq> [] \<and> \<not> startswith l ''BLOCKSTARTS'' \<and> \<not> startswith l ''COUNTYENDS''"
    using assms(5,8) cs by auto
  have miss: "\<not> (\<exists>l\<in>set ?body. startswith l ''COUNTYSTARTS'' \<and> str_in tgt l)"
    using assms(5,7,8) by auto
  let ?s2 = "scan tgt initial_state (pre @ b # ?body)"
  have s2: "?s2 = ?s0
      \<lparr>LINES_LIST := LINES_LIST ?s0 @ b # filter (\<lambda>l. \<not> envelope l) ?body,
       OFF_COUNTY := True,
       TOTAL_COMPANIES_FOUND := TOTAL_COMPANIES_FOUND ?s0 + 1,
       branches_file := branches_file ?s0 @ filter envelope ?body\<rparr>"
    using scan_block_open [OF assms(1,3,4) body, of initial_state] miss flag0 by simp
  let ?s3 = "?s2\<lparr>OFF_COUNTY := False, LINES_LIST := []\<rparr>"
  have s3: "step tgt ?s2 ce = ?s3"
    using assms(9) flag0 by (intro step_close_drop) (simp_all add: s2)
  have nonempty: "[] \<notin> set (pre @ b # ?body)"
    using assms(1,3) body by (auto dest: startswith_nonempty)
  have "scan tgt initial_state ((pre @ b # ?body) @ ce # rest) = scan tgt (step tgt ?s2 ce) rest"
    using scan_append [OF nonempty, of tgt initial_state "ce # rest"] ce by simp
  also have "\<dots> = scan tgt ?s3 rest"
    by (simp only: s3)
  also have "\<dots> = ?s3\<lparr>branches_file := branches_file ?s3 @ filter envelope rest\<rparr>"
    using assms(10) by (intro scan_outside) simp_all
  finally show ?thesis
    using cs(2) by (simp add: s2 process_text_file_def)
qed

theorem non_match_exclusion_witness:
  "[] \<notin> set [''STARTS\<newline>''] \<and>
   \<not> RECORD_FLAG (process_text_file TARGET_COD_TOM [''STARTS\<newline>'']) \<and>
   startswith ''BLOCKSTARTS|1111|\<newline>'' ''BLOCKSTARTS'' \<and>
   \<not> str_in TARGET_COD_TOM ''BLOCKSTARTS|1111|\<newline>'' \<and>
   startswith ''COUNTYSTARTS|9999|\<newline>'' ''COUNTYSTARTS'' \<and>
   \<not> str_in TARGET_COD_TOM ''COUNTYSTARTS|9999|\<newline>'' \<and>
   startswith ''COUNTYENDS\<newline>'' ''COUNTYENDS'' \<and>
   list_all (\<lambda>l. l \<noteq> [] \<and> \<not> startswith l ''BLOCKSTARTS'')
     [''COUNTYSTARTS|3685|\<newline>'', ''data-row-B\<newline>'', ''COUNTYENDS\<newline>'', ''ENDS\<newline>''] \<and>
   branches_file (process_text_file TARGET_COD_TOM
     [''STARTS\<newline>'', ''BLOCKSTARTS|1111|\<newline>'', ''COUNTYSTARTS|9999|\<newline>'',
      ''data-row-A\<newline>'', ''COUNTYENDS\<newline>'', ''COUNTYSTARTS|3685|\<newline>'',
      ''data-row-B\<newline>'', ''COUNTYENDS\<newline>'', ''ENDS\<newline>''])
     = [''STARTS\<newline>'', ''ENDS\<newline>''] \<and>
   TOTAL_COMPANIES_RECORDED (process_text_file TARGET_COD_TOM
     [''STARTS\<newline>'', ''BLOCKSTARTS|1111|\<newline>'', ''COUNTYSTARTS|9999|\<newline>'',
      ''data-row-A\<newline>'', ''COUNTYENDS\<newline>'', ''COUNTYSTARTS|3685|\<newline>'',
      ''data-row-B\<newline>'', ''COUNTYENDS\<newline>'', ''ENDS\<newline>'']) = 0"
  using non_match_exclusion
    [of "[''STARTS\<newline>'']" TARGET_COD_TOM "''BLOCKSTARTS|1111|\<newline>''" "[]"
        "''COUNTYSTARTS|9999|\<newline>''" "[''data-row-A\<newline>'']" "''COUNTYENDS\<newline>''"
        "[''COUNTYSTARTS|3685|\<newline>'', ''data-row-B\<newline>'', ''COUNTYENDS\<newline>'', ''ENDS\<newline>'']"]
  by (simp add: process_text_file_def initial_state_def step_def envelope_def TARGET_COD_TOM_def)

subsection \<open>C6: the count of companies found\<close>

text \<open>
  C6: at the end of the input the count of companies found is the number of lines of
  the input with prefix \<open>BLOCKSTARTS\<close>: each adds one, in either branch.
\<close>

theorem companies_seen_count:
  "[] \<notin> set file \<Longrightarrow>
   TOTAL_COMPANIES_FOUND (process_text_file tgt file) =
     int (length (filter (\<lambda>l. startswith l ''BLOCKSTARTS'') file))"
  by (simp add: process_text_file_def found_scan initial_state_def)

theorem companies_seen_count_witness:
  "[] \<notin> set [''STARTS\<newline>'', ''BLOCKSTARTS|3685|\<newline>'', ''BLOCKSTARTS|1111|\<newline>'',
               ''COUNTYSTARTS|3685|\<newline>'', ''COUNTYENDS\<newline>'', ''ENDS\<newline>''] \<and>
   TOTAL_COMPANIES_FOUND (process_text_file TARGET_COD_TOM
     [''STARTS\<newline>'', ''BLOCKSTARTS|3685|\<newline>'', ''BLOCKSTARTS|1111|\<newline>'',
      ''COUNTYSTARTS|3685|\<newline>'', ''COUNTYENDS\<newline>'', ''ENDS\<newline>'']) = 2"
  using companies_seen_count
    [of "[''STARTS\<newline>'', ''BLOCKSTARTS|3685|\<newline>'', ''BLOCKSTARTS|1111|\<newline>'',
          ''COUNTYSTARTS|3685|\<newline>'', ''COUNTYENDS\<newline>'', ''ENDS\<newline>'']" TARGET_COD_TOM]
  by simp

subsection \<open>C7: input that ends inside a company, closing line without a company\<close>

text \<open>
  C7: when the input ends while the company started by \<open>b\<close> is still being scanned (the
  lines \<open>body\<close> after \<open>b\<close> neither close a sub-block nor start a company), the loop ends in
  the same way as on any other input: \<open>scan\<close> is a total function, and no operation of the
  loop body can raise. The lines of the company are still in the buffer at the end, and
  none of them has been written: the output has grown by the envelope markers of \<open>body\<close>
  alone and no company has been recorded. Likewise a line with prefix \<open>COUNTYENDS\<close> read
  while no company is being scanned leaves the whole state as it is.
\<close>

theorem silent_drop:
  assumes "[] \<notin> set pre"
    and "startswith b ''BLOCKSTARTS''" and "\<not> str_in tgt b"
    and "\<forall>l\<in>set body. l \<noteq> [] \<and> \<not> startswith l ''BLOCKSTARTS'' \<and> \<not> startswith l ''COUNTYENDS''"
  shows "OFF_COUNTY (process_text_file tgt (pre @ b # body)) \<and>
         LINES_LIST (process_text_file tgt (pre @ b # body)) =
           LINES_LIST (process_text_file tgt pre) @ b # filter (\<lambda>l. \<not> envelope l) body \<and>
         branches_file (process_text_file tgt (pre @ b # body)) =
           branches_file (process_text_file tgt pre) @ filter envelope body \<and>
         TOTAL_COMPANIES_RECORDED (process_text_file tgt (pre @ b # body)) =
           TOTAL_COMPANIES_RECORDED (process_text_file tgt pre) \<and>
         (\<forall>ce. startswith ce ''COUNTYENDS'' \<and> \<not> OFF_COUNTY (process_text_file tgt pre) \<longrightarrow>
            process_text_file tgt (pre @ [ce]) = process_text_file tgt pre)"
proof -
  have "\<And>ce. startswith ce ''COUNTYENDS'' \<Longrightarrow> \<not> OFF_COUNTY (scan tgt initial_state pre) \<Longrightarrow>
     scan tgt initial_state (pre @ [ce]) = scan tgt initial_state pre"
  proof -
    fix ce
    assume ce: "startswith ce ''COUNTYENDS''" and out: "\<not> OFF_COUNTY (scan tgt initial_state pre)"
    have "ce \<noteq> []"
      using ce by (rule startswith_nonempty)
    moreover have "step tgt (scan tgt initial_state pre) ce = scan tgt initial_state pre"
      using out ce by (intro step_outside countyends_not_envelope countyends_not_blockstarts)
    ultimately show "scan tgt initial_state (pre @ [ce]) = scan tgt initial_state pre"
      using assms(1) by (simp add: scan_append)
  qed
  then show ?thesis
    using scan_block_open [OF assms, of initial_state]
    by (simp add: process_text_file_def)
qed

theorem silent_drop_witness:
  "[] \<notin> set [''STARTS\<newline>''] \<and>
   startswith ''BLOCKSTARTS|1111|\<newline>'' ''BLOCKSTARTS'' \<and>
   \<not> str_in TARGET_COD_TOM ''BLOCKSTARTS|1111|\<newline>'' \<and>
   list_all (\<lambda>l. l \<noteq> [] \<and> \<not> startswith l ''BLOCKSTARTS'' \<and> \<not> startswith l ''COUNTYENDS'')
     [''COUNTYSTARTS|3685|\<newline>'', ''data-row-A\<newline>''] \<and>
   OFF_COUNTY (process_text_file TARGET_COD_TOM
     [''STARTS\<newline>'', ''BLOCKSTARTS|1111|\<newline>'', ''COUNTYSTARTS|3685|\<newline>'',
      ''data-row-A\<newline>'']) \<and>
   branches_file (process_text_file TARGET_COD_TOM
     [''STARTS\<newline>'', ''BLOCKSTARTS|1111|\<newline>'', ''COUNTYSTARTS|3685|\<newline>'',
      ''data-row-A\<newline>'']) = [''STARTS\<newline>''] \<and>
   startswith ''COUNTYENDS\<newline>'' ''COUNTYENDS'' \<and>
   \<not> OFF_COUNTY (process_text_file TARGET_COD_TOM [''STARTS\<newline>'']) \<and>
   process_text_file TARGET_COD_TOM [''STARTS\<newline>'', ''COUNTYENDS\<newline>'']
     = process_text_file TARGET_COD_TOM [''STARTS\<newline>'']"
  using silent_drop
    [of "[''STARTS\<newline>'']" "''BLOCKSTARTS|1111|\<newline>''" TARGET_COD_TOM
        "[''COUNTYSTARTS|3685|\<newline>'', ''data-row-A\<newline>'']"]
  by (simp add: process_text_file_def initial_state_def step_def envelope_def TARGET_COD_TOM_def)

subsection \<open>C8: envelope markers\<close>

text \<open>
  C8: in every state of the loop, a line with prefix \<open>STARTS\<close> or \<open>ENDS\<close> is written to
  the output at once and is not appended to the buffer: the state after it is the state
  before it with the line added at the end of the output. The state \<open>st\<close> in which the
  loop starts and the lines \<open>pre\<close> read before the marker are arbitrary.
\<close>

theorem envelope_pass_through:
  assumes "[] \<notin> set pre" and "envelope line"
  shows "scan tgt st (pre @ [line]) =
           (scan tgt st pre)\<lparr>branches_file := branches_file (scan tgt st pre) @ [line]\<rparr>"
proof -
  have "line \<noteq> []"
    using assms(2) by (auto simp: envelope_def)
  then show ?thesis
    using assms by (simp add: scan_append step_envelope)
qed

theorem envelope_pass_through_witness:
  "[] \<notin> set [''BLOCKSTARTS|1111|\<newline>''] \<and> envelope ''ENDS\<newline>'' \<and>
   branches_file (scan TARGET_COD_TOM initial_state [''BLOCKSTARTS|1111|\<newline>'', ''ENDS\<newline>''])
     = [''ENDS\<newline>''] \<and>
   LINES_LIST (scan TARGET_COD_TOM initial_state [''BLOCKSTARTS|1111|\<newline>'', ''ENDS\<newline>''])
     = [''BLOCKSTARTS|1111|\<newline>'']"
  using envelope_pass_through
    [of "[''BLOCKSTARTS|1111|\<newline>'']" "''ENDS\<newline>''" TARGET_COD_TOM initial_state]
  by (simp add: envelope_def step_def initial_state_def TARGET_COD_TOM_def)

subsection \<open>C9: order of the lines written\<close>

text \<open>
  C9: the lines of company blocks in the output, which are all its lines but the
  envelope markers, form a subsequence of the input: the companies kept come in the
  order of the input, and so do the lines of each of them. (An envelope marker is
  written when it is read, so one that stands inside a company being scanned comes out
  ahead of that company's lines.)
\<close>

theorem order_preservation:
  "subseq (filter (\<lambda>l. \<not> envelope l) (branches_file (process_text_file tgt file))) file"
proof -
  have "subseq (block_lines initial_state) []"
    by (simp add: block_lines_def initial_state_def)
  then have "subseq (block_lines (scan tgt initial_state file)) ([] @ file)"
    by (rule block_lines_scan)
  then have "subseq (filter (\<lambda>l. \<not> envelope l) (branches_file (scan tgt initial_state file))
      @ LINES_LIST (scan tgt initial_state file)) file"
    by (simp add: block_lines_def)
  then have "subseq (filter (\<lambda>l. \<not> envelope l) (branches_file (scan tgt initial_state file))
      @ filter (\<lambda>l. False) (LINES_LIST (scan tgt initial_state file))) file"
    by (rule subseq_drop_buffer)
  then show ?thesis
    by (simp add: process_text_file_def)
qed

subsection \<open>C10: companies recorded and companies found\<close>

text \<open>
  C10: at every point of the scan, and so at the end of the input, the count of
  companies recorded is at most the count of companies found. The input is arbitrary,
  so the statement holds for the state after each of its prefixes.
\<close>

theorem counter_dominance:
  "TOTAL_COMPANIES_RECORDED (process_text_file tgt file)
     \<le> TOTAL_COMPANIES_FOUND (process_text_file tgt file)"
proof -
  have "counters_ok initial_state"
    by (simp add: counters_ok_def initial_state_def)
  then have "counters_ok (process_text_file tgt file)"
    unfolding process_text_file_def by (rule counters_ok_scan)
  then show ?thesis
    by (simp add: counters_ok_def split: if_splits)
qed

end
